theory Spec2Isabelle
  imports Main
begin

section \<open>Data model of src/App.tsx\<close>

text \<open>
  The interface \<open>Track\<close> (lines 5-10): four string fields.
\<close>

record Track =
  Artist :: string
  TrackName :: string
  Year :: string
  Genre :: string

text \<open>
  The interface \<open>Node\<close> (lines 12-18).  Node objects are shared and mutated through
  references (\<open>children.push\<close>, the \<open>parent\<close> field, the back-reference stored in the
  children of year and genre nodes), so a node is stored in a heap and referred to by
  its address.  The heap is the list of all node objects in allocation order; the
  address of an object is its index.  Field \<open>id\<close> is \<open>nid\<close> and field \<open>type\<close> is
  \<open>ntype\<close> here; an absent \<open>parent\<close> is \<open>None\<close>.
\<close>

type_synonym addr = nat

datatype kind = artist | track | year | genre

record Node =
  nid :: string
  label :: string
  children :: "addr list"
  ntype :: kind
  parent :: "addr option"

type_synonym heap = "Node list"

text \<open>
  The only exception the function can raise is the \<open>TypeError\<close> of reading a property
  of \<open>undefined\<close>.
\<close>

datatype error = TypeError

section \<open>Primitive operations\<close>

text \<open>An object literal allocates a fresh object and yields its reference.\<close>

definition alloc :: "Node \<Rightarrow> heap \<Rightarrow> addr \<times> heap" where
  "alloc n h = (length h, h @ [n])"

text \<open>The object literals of an \<open>Array.prototype.map\<close> call, allocated in order.\<close>

fun allocs :: "Node list \<Rightarrow> heap \<Rightarrow> addr list \<times> heap" where
  "allocs [] h = ([], h)"
| "allocs (n # ns) h =
     (let (a, h1) = alloc n h; (as, h2) = allocs ns h1 in (a # as, h2))"

text \<open>\<open>node.children.push(...cs)\<close> on the node at address \<open>a\<close>.\<close>

definition push :: "addr \<Rightarrow> addr list \<Rightarrow> heap \<Rightarrow> heap" where
  "push a cs h = h[a := (h ! a)\<lparr>children := children (h ! a) @ cs\<rparr>]"

text \<open>
  \<open>String.prototype.split\<close> with a one-character separator: the pieces between the
  occurrences of the separator, in order; the empty string gives one empty piece.
\<close>

fun split :: "char \<Rightarrow> string \<Rightarrow> string list" where
  "split c [] = [[]]"
| "split c (x # xs) =
     (if x = c then [] # split c xs
      else (case split c xs of [] \<Rightarrow> [[x]] | t # ts \<Rightarrow> (x # t) # ts))"

text \<open>
  \<open>artistMap\<close> is a plain object literal \<open>{}\<close> (line 35), so its prototype is
  \<open>Object.prototype\<close> and a property read that finds no own property continues there.
  Its own properties are the artist nodes stored by line 48.  The names below are the
  properties of \<open>Object.prototype\<close> (ECMAScript 20.1.3 and B.2.2); each of them holds a
  function, or for \<open>__proto__\<close> the prototype object itself, hence a truthy value that
  is not a \<open>Node\<close> and has no \<open>children\<close> property.
\<close>

definition objectPrototypeKeys :: "string list" where
  "objectPrototypeKeys =
     [''constructor'', ''hasOwnProperty'', ''isPrototypeOf'', ''propertyIsEnumerable'',
      ''toLocaleString'', ''toString'', ''valueOf'', ''__defineGetter__'',
      ''__defineSetter__'', ''__lookupGetter__'', ''__lookupSetter__'', ''__proto__'']"

datatype jsval = Undefined | NodeRef addr | ProtoValue

text \<open>The property read \<open>artistMap[key]\<close>.\<close>

definition getProp :: "(string \<rightharpoonup> addr) \<Rightarrow> string \<Rightarrow> jsval" where
  "getProp m k =
     (case m k of
        Some a \<Rightarrow> NodeRef a
      | None \<Rightarrow> if k \<in> set objectPrototypeKeys then ProtoValue else Undefined)"

section \<open>buildMindMap (lines 33-81)\<close>

text \<open>Line 34: the root object, before any child is pushed.\<close>

definition rootNode :: Node where
  "rootNode = \<lparr>nid = ''root'', label = ''Music Library'', children = [],
               ntype = artist, parent = None\<rparr>"

text \<open>
  Lines 51-77 of the callback, for an \<open>artistNode\<close> that is a node: the track node is
  allocated with no children and pushed to the artist's children (line 59), the year
  node and the genre nodes are allocated with the track node as their only child and
  as their parent, and are then pushed to the track node's children (line 77).
\<close>

definition attachTrack :: "Track \<Rightarrow> addr \<Rightarrow> heap \<Rightarrow> heap" where
  "attachTrack tr artistNode h =
     (let (trackNode, h1) =
            alloc \<lparr>nid = Artist tr @ ''-'' @ TrackName tr, label = TrackName tr,
                   children = [], ntype = track, parent = Some artistNode\<rparr> h;
          h2 = push artistNode [trackNode] h1;
          (yearNode, h3) =
            alloc \<lparr>nid = Artist tr @ ''-'' @ TrackName tr @ ''-'' @ Year tr,
                   label = Year tr, children = [trackNode], ntype = year,
                   parent = Some trackNode\<rparr> h2;
          (genreNodes, h4) =
            allocs (map (\<lambda>g. \<lparr>nid = Artist tr @ ''-'' @ TrackName tr @ ''-'' @ g,
                                label = g, children = [trackNode], ntype = genre,
                                parent = Some trackNode\<rparr>)
                        (split CHR '';'' (Genre tr))) h3
      in push trackNode (yearNode # genreNodes) h4)"

text \<open>
  The state of the loop: the heap of nodes, the own properties of \<open>artistMap\<close>, and
  the array \<open>tracks\<close> the function was called with (the callback holds a reference to
  each of its elements, so the array is part of the state it could write to).
\<close>

record state =
  heap :: heap
  artistMap :: "string \<rightharpoonup> addr"
  input :: "Track list"

text \<open>
  The callback of \<open>forEach\<close> (lines 37-78), called with the element \<open>track\<close>.  Line 38
  reads \<open>artistMap[track.Artist]\<close>:
  \<^item> \<open>undefined\<close> is falsy: a new artist node is allocated (lines 38-44), line 46 reads
    the same \<open>undefined\<close>, so the node is pushed to the root's children and stored in
    \<open>artistMap\<close> (lines 47-48);
  \<^item> a node is truthy: it is \<open>artistNode\<close>, and line 46 skips lines 47-48;
  \<^item> a value inherited from \<open>Object.prototype\<close> is truthy as well: it is
    \<open>artistNode\<close>, line 46 skips lines 47-48, and \<open>artistNode.children\<close> in line 59 is
    \<open>undefined\<close>, so \<open>.push\<close> raises a \<open>TypeError\<close>, which leaves \<open>forEach\<close> and
    \<open>buildMindMap\<close>.
\<close>

definition addTrack :: "addr \<Rightarrow> Track \<Rightarrow> state \<Rightarrow> error + state" where
  "addTrack root tr s =
     (case getProp (artistMap s) (Artist tr) of
        Undefined \<Rightarrow>
          (let (artistNode, h1) =
                 alloc \<lparr>nid = Artist tr, label = Artist tr, children = [],
                        ntype = artist, parent = Some root\<rparr> (heap s);
               h2 = push root [artistNode] h1;
               m = (artistMap s)(Artist tr \<mapsto> artistNode)
           in Inr (s\<lparr>heap := attachTrack tr artistNode h2, artistMap := m\<rparr>))
      | NodeRef artistNode \<Rightarrow> Inr (s\<lparr>heap := attachTrack tr artistNode (heap s)\<rparr>)
      | ProtoValue \<Rightarrow> Inl TypeError)"

text \<open>
  \<open>Array.prototype.forEach\<close> on the array \<open>input\<close>: the callback runs for the indices
  below the length the array had at the call, in increasing order, each time with the
  element the array holds at that index then; an exception ends the loop.
\<close>

fun forEach :: "(Track \<Rightarrow> state \<Rightarrow> error + state) \<Rightarrow> nat list \<Rightarrow> state \<Rightarrow> error + state" where
  "forEach f [] s = Inr s"
| "forEach f (i # is) s =
     (case f (input s ! i) s of Inl e \<Rightarrow> Inl e | Inr s' \<Rightarrow> forEach f is s')"

text \<open>
  \<open>buildMindMap tracks h0\<close>: the call on the array \<open>tracks\<close> in a store that already
  holds the node objects \<open>h0\<close>.  It returns the reference \<open>root\<close> together with the
  store after the call: the heap of nodes and the array \<open>tracks\<close>.
\<close>

definition buildMindMap :: "Track list \<Rightarrow> heap \<Rightarrow> error + (addr \<times> heap \<times> Track list)" where
  "buildMindMap tracks h0 =
     (let (root, h1) = alloc rootNode h0 in
      case forEach (addTrack root) [0..<length tracks]
             \<lparr>heap = h1, artistMap = Map.empty, input = tracks\<rparr> of
        Inl e \<Rightarrow> Inl e
      | Inr s \<Rightarrow> Inr (root, heap s, input s))"

section \<open>Observing the result\<close>

text \<open>
  The tree that the returned root owns, read off the heap along \<open>children\<close>: the root,
  its children (the artist nodes), their children (the track nodes) and the children of
  those (the year and genre nodes).  The \<open>children\<close> of a year or genre node hold the
  back-reference to the track node and are not followed.  A \<open>tree\<close> carries the
  identity string, the label, the kind and the subtrees in sibling order.
\<close>

datatype tree = Tree (tid: string) (tlabel: string) (tkind: kind) (kids: "tree list")

definition leafTree :: "heap \<Rightarrow> addr \<Rightarrow> tree" where
  "leafTree h c = Tree (nid (h ! c)) (label (h ! c)) (ntype (h ! c)) []"

definition trackTree :: "heap \<Rightarrow> addr \<Rightarrow> tree" where
  "trackTree h p = Tree (nid (h ! p)) (label (h ! p)) (ntype (h ! p)) (map (leafTree h) (children (h ! p)))"

definition artistTree :: "heap \<Rightarrow> addr \<Rightarrow> tree" where
  "artistTree h a = Tree (nid (h ! a)) (label (h ! a)) (ntype (h ! a)) (map (trackTree h) (children (h ! a)))"

definition rootTree :: "heap \<Rightarrow> addr \<Rightarrow> tree" where
  "rootTree h r = Tree (nid (h ! r)) (label (h ! r)) (ntype (h ! r)) (map (artistTree h) (children (h ! r)))"

text \<open>The elements of a list in the order of their first appearance.\<close>

fun first_appearance :: "'a list \<Rightarrow> 'a list" where
  "first_appearance [] = []"
| "first_appearance (x # xs) = x # filter (\<lambda>y. y \<noteq> x) (first_appearance xs)"

text \<open>
  The subtree that the specification (section 4.1, steps 3b to 3d) prescribes for one
  record: the track node, whose children are the year node followed by one genre node
  for each piece of the genre field, with the identity strings of section 3.
\<close>

definition specTrack :: "Track \<Rightarrow> tree" where
  "specTrack tr =
     Tree (Artist tr @ ''-'' @ TrackName tr) (TrackName tr) track
       (Tree (Artist tr @ ''-'' @ TrackName tr @ ''-'' @ Year tr) (Year tr) year [] #
        map (\<lambda>g. Tree (Artist tr @ ''-'' @ TrackName tr @ ''-'' @ g) g genre [])
            (split CHR '';'' (Genre tr)))"

text \<open>
  The whole tree that the specification prescribes, a function of the input alone: under
  the root, one artist subtree for each artist name in the order of first appearance,
  holding the subtrees of that artist's records in input order.
\<close>

definition specArtist :: "Track list \<Rightarrow> string \<Rightarrow> tree" where
  "specArtist tracks A = Tree A A artist (map specTrack (filter (\<lambda>t. Artist t = A) tracks))"

definition specRoot :: "Track list \<Rightarrow> tree" where
  "specRoot tracks =
     Tree ''root'' ''Music Library'' artist
       (map (specArtist tracks) (first_appearance (map Artist tracks)))"

text \<open>The identity strings of all nodes of a tree, each node counted once.\<close>

fun treeIds :: "tree \<Rightarrow> string list" where
  "treeIds (Tree i l k ts) = i # concat (map treeIds ts)"

section \<open>The heap during the loop\<close>

text \<open>The nodes that \<open>attachTrack\<close> allocates at address \<open>p\<close> and after.\<close>

definition trackNodeOf :: "Track \<Rightarrow> addr \<Rightarrow> addr \<Rightarrow> Node" where
  "trackNodeOf tr a p =
     \<lparr>nid = Artist tr @ ''-'' @ TrackName tr, label = TrackName tr,
      children = Suc p # map (\<lambda>i. Suc (Suc (p + i))) [0..<length (split CHR '';'' (Genre tr))],
      ntype = track, parent = Some a\<rparr>"

definition yearNodeOf :: "Track \<Rightarrow> addr \<Rightarrow> Node" where
  "yearNodeOf tr p =
     \<lparr>nid = Artist tr @ ''-'' @ TrackName tr @ ''-'' @ Year tr, label = Year tr,
      children = [p], ntype = year, parent = Some p\<rparr>"

definition genreNodeOf :: "Track \<Rightarrow> addr \<Rightarrow> string \<Rightarrow> Node" where
  "genreNodeOf tr p g =
     \<lparr>nid = Artist tr @ ''-'' @ TrackName tr @ ''-'' @ g, label = g,
      children = [p], ntype = genre, parent = Some p\<rparr>"

definition newNodes :: "Track \<Rightarrow> addr \<Rightarrow> addr \<Rightarrow> Node list" where
  "newNodes tr a p =
     trackNodeOf tr a p # yearNodeOf tr p # map (genreNodeOf tr p) (split CHR '';'' (Genre tr))"

text \<open>
  Well-formedness of the three levels below the root: a year or genre node \<open>c\<close> of the
  track node \<open>p\<close>, a track node \<open>p\<close> of the artist node \<open>a\<close>, and an artist node \<open>a\<close>
  of the root \<open>r\<close>.
\<close>

definition leaf_ok :: "heap \<Rightarrow> addr \<Rightarrow> addr \<Rightarrow> bool" where
  "leaf_ok h p c \<longleftrightarrow>
     c < length h \<and> (ntype (h ! c) = year \<or> ntype (h ! c) = genre) \<and>
     children (h ! c) = [p] \<and> parent (h ! c) = Some p"

definition track_ok :: "heap \<Rightarrow> addr \<Rightarrow> addr \<Rightarrow> bool" where
  "track_ok h a p \<longleftrightarrow>
     p < length h \<and> ntype (h ! p) = track \<and> parent (h ! p) = Some a \<and>
     distinct (children (h ! p)) \<and> (\<forall>c \<in> set (children (h ! p)). leaf_ok h p c)"

definition artist_ok :: "addr \<Rightarrow> heap \<Rightarrow> addr \<Rightarrow> bool" where
  "artist_ok r h a \<longleftrightarrow>
     r < a \<and> a < length h \<and> ntype (h ! a) = artist \<and> nid (h ! a) = label (h ! a) \<and>
     parent (h ! a) = Some r \<and> distinct (children (h ! a)) \<and>
     (\<forall>p \<in> set (children (h ! a)). track_ok h a p)"

text \<open>
  A later heap \<open>h'\<close> extends \<open>h\<close>: nothing is deallocated and only nodes of kind
  \<open>artist\<close> (the root and the artist nodes) are written to.
\<close>

definition ext :: "heap \<Rightarrow> heap \<Rightarrow> bool" where
  "ext h h' \<longleftrightarrow>
     length h \<le> length h' \<and> (\<forall>x < length h. ntype (h ! x) \<noteq> artist \<longrightarrow> h' ! x = h ! x)"

text \<open>
  The loop invariant after the records \<open>ts\<close>, with \<open>names\<close> the artist names that have a
  node: the root is as line 34 made it, its children are the artist nodes for \<open>names\<close> in
  order, \<open>artistMap\<close> maps each name to its node, and the track nodes under an artist
  node are the subtrees of that artist's records, in input order.
\<close>

definition build_inv :: "addr \<Rightarrow> string list \<Rightarrow> Track list \<Rightarrow> heap \<Rightarrow> (string \<rightharpoonup> addr) \<Rightarrow> bool" where
  "build_inv r names ts h m \<longleftrightarrow>
     r < length h \<and> nid (h ! r) = ''root'' \<and> label (h ! r) = ''Music Library'' \<and>
     ntype (h ! r) = artist \<and> parent (h ! r) = None \<and>
     map (\<lambda>a. label (h ! a)) (children (h ! r)) = names \<and> distinct names \<and>
     Artist ` set ts \<subseteq> set names \<and> dom m = set names \<and>
     (\<forall>a \<in> set (children (h ! r)).
        artist_ok r h a \<and> m (label (h ! a)) = Some a \<and>
        map (trackTree h) (children (h ! a)) =
          map specTrack (filter (\<lambda>t. Artist t = label (h ! a)) ts))"

text \<open>
  The part of an identity string before its first \<open>-\<close>, and the part after it.
\<close>

definition key1 :: "string \<Rightarrow> string" where
  "key1 s = takeWhile (\<lambda>c. c \<noteq> CHR ''-'') s"

definition rest1 :: "string \<Rightarrow> string" where
  "rest1 s = tl (dropWhile (\<lambda>c. c \<noteq> CHR ''-'') s)"

section \<open>Example inputs\<close>

text \<open>The scenario of the specification's section 8 and the heap it produces.\<close>

definition library :: "Track list" where
  "library =
     [\<lparr>Artist = ''The Beatles'', TrackName = ''Hey Jude'', Year = ''1968'', Genre = ''Rock;Pop''\<rparr>,
      \<lparr>Artist = ''The Beatles'', TrackName = ''Let It Be'', Year = ''1970'', Genre = ''Rock;Pop''\<rparr>,
      \<lparr>Artist = ''Queen'', TrackName = ''Bohemian Rhapsody'', Year = ''1975'', Genre = ''Rock''\<rparr>]"

definition libraryHeap :: heap where
  "libraryHeap =
     [\<lparr>nid = ''root'', label = ''Music Library'', children = [1, 10], ntype = artist, parent = None\<rparr>,
      \<lparr>nid = ''The Beatles'', label = ''The Beatles'', children = [2, 6], ntype = artist, parent = Some 0\<rparr>,
      \<lparr>nid = ''The Beatles-Hey Jude'', label = ''Hey Jude'', children = [3, 4, 5], ntype = track, parent = Some 1\<rparr>,
      \<lparr>nid = ''The Beatles-Hey Jude-1968'', label = ''1968'', children = [2], ntype = year, parent = Some 2\<rparr>,
      \<lparr>nid = ''The Beatles-Hey Jude-Rock'', label = ''Rock'', children = [2], ntype = genre, parent = Some 2\<rparr>,
      \<lparr>nid = ''The Beatles-Hey Jude-Pop'', label = ''Pop'', children = [2], ntype = genre, parent = Some 2\<rparr>,
      \<lparr>nid = ''The Beatles-Let It Be'', label = ''Let It Be'', children = [7, 8, 9], ntype = track, parent = Some 1\<rparr>,
      \<lparr>nid = ''The Beatles-Let It Be-1970'', label = ''1970'', children = [6], ntype = year, parent = Some 6\<rparr>,
      \<lparr>nid = ''The Beatles-Let It Be-Rock'', label = ''Rock'', children = [6], ntype = genre, parent = Some 6\<rparr>,
      \<lparr>nid = ''The Beatles-Let It Be-Pop'', label = ''Pop'', children = [6], ntype = genre, parent = Some 6\<rparr>,
      \<lparr>nid = ''Queen'', label = ''Queen'', children = [11], ntype = artist, parent = Some 0\<rparr>,
      \<lparr>nid = ''Queen-Bohemian Rhapsody'', label = ''Bohemian Rhapsody'', children = [12, 13], ntype = track, parent = Some 10\<rparr>,
      \<lparr>nid = ''Queen-Bohemian Rhapsody-1975'', label = ''1975'', children = [11], ntype = year, parent = Some 11\<rparr>,
      \<lparr>nid = ''Queen-Bohemian Rhapsody-Rock'', label = ''Rock'', children = [11], ntype = genre, parent = Some 11\<rparr>]"

text \<open>Artists that are named like the root's identity string and like its label.\<close>

definition rootNamed :: "Track list" where
  "rootNamed =
     [\<lparr>Artist = ''root'', TrackName = '''', Year = ''x'', Genre = ''''\<rparr>,
      \<lparr>Artist = ''Music Library'', TrackName = ''T'', Year = ''1'', Genre = ''G''\<rparr>]"

definition rootNamedHeap :: heap where
  "rootNamedHeap =
     [\<lparr>nid = ''root'', label = ''Music Library'', children = [1, 5], ntype = artist, parent = None\<rparr>,
      \<lparr>nid = ''root'', label = ''root'', children = [2], ntype = artist, parent = Some 0\<rparr>,
      \<lparr>nid = ''root-'', label = '''', children = [3, 4], ntype = track, parent = Some 1\<rparr>,
      \<lparr>nid = ''root--x'', label = ''x'', children = [2], ntype = year, parent = Some 2\<rparr>,
      \<lparr>nid = ''root--'', label = '''', children = [2], ntype = genre, parent = Some 2\<rparr>,
      \<lparr>nid = ''Music Library'', label = ''Music Library'', children = [6], ntype = artist, parent = Some 0\<rparr>,
      \<lparr>nid = ''Music Library-T'', label = ''T'', children = [7, 8], ntype = track, parent = Some 5\<rparr>,
      \<lparr>nid = ''Music Library-T-1'', label = ''1'', children = [6], ntype = year, parent = Some 6\<rparr>,
      \<lparr>nid = ''Music Library-T-G'', label = ''G'', children = [6], ntype = genre, parent = Some 6\<rparr>]"

text \<open>A single record with two genres.\<close>

definition oneTrack :: "Track list" where
  "oneTrack = [\<lparr>Artist = ''Queen'', TrackName = ''We Will Rock You'', Year = ''1977'', Genre = ''Rock;Funk''\<rparr>]"

definition oneTrackHeap :: heap where
  "oneTrackHeap =
     [\<lparr>nid = ''root'', label = ''Music Library'', children = [1], ntype = artist, parent = None\<rparr>,
      \<lparr>nid = ''Queen'', label = ''Queen'', children = [2], ntype = artist, parent = Some 0\<rparr>,
      \<lparr>nid = ''Queen-We Will Rock You'', label = ''We Will Rock You'', children = [3, 4, 5], ntype = track, parent = Some 1\<rparr>,
      \<lparr>nid = ''Queen-We Will Rock You-1977'', label = ''1977'', children = [2], ntype = year, parent = Some 2\<rparr>,
      \<lparr>nid = ''Queen-We Will Rock You-Rock'', label = ''Rock'', children = [2], ntype = genre, parent = Some 2\<rparr>,
      \<lparr>nid = ''Queen-We Will Rock You-Funk'', label = ''Funk'', children = [2], ntype = genre, parent = Some 2\<rparr>]"

text \<open>The same record twice.\<close>

definition repeated :: "Track list" where
  "repeated =
     [\<lparr>Artist = ''A'', TrackName = ''T'', Year = ''1'', Genre = ''G''\<rparr>,
      \<lparr>Artist = ''A'', TrackName = ''T'', Year = ''1'', Genre = ''G''\<rparr>]"

definition repeatedHeap :: heap where
  "repeatedHeap =
     [\<lparr>nid = ''root'', label = ''Music Library'', children = [1], ntype = artist, parent = None\<rparr>,
      \<lparr>nid = ''A'', label = ''A'', children = [2, 5], ntype = artist, parent = Some 0\<rparr>,
      \<lparr>nid = ''A-T'', label = ''T'', children = [3, 4], ntype = track, parent = Some 1\<rparr>,
      \<lparr>nid = ''A-T-1'', label = ''1'', children = [2], ntype = year, parent = Some 2\<rparr>,
      \<lparr>nid = ''A-T-G'', label = ''G'', children = [2], ntype = genre, parent = Some 2\<rparr>,
      \<lparr>nid = ''A-T'', label = ''T'', children = [6, 7], ntype = track, parent = Some 1\<rparr>,
      \<lparr>nid = ''A-T-1'', label = ''1'', children = [5], ntype = year, parent = Some 5\<rparr>,
      \<lparr>nid = ''A-T-G'', label = ''G'', children = [5], ntype = genre, parent = Some 5\<rparr>]"

text \<open>The heap after a second call on the single record, made in the heap of the first.\<close>

definition oneTrackHeap2 :: heap where
  "oneTrackHeap2 = oneTrackHeap @
     [\<lparr>nid = ''root'', label = ''Music Library'', children = [7], ntype = artist, parent = None\<rparr>,
      \<lparr>nid = ''Queen'', label = ''Queen'', children = [8], ntype = artist, parent = Some 6\<rparr>,
      \<lparr>nid = ''Queen-We Will Rock You'', label = ''We Will Rock You'', children = [9, 10, 11], ntype = track, parent = Some 7\<rparr>,
      \<lparr>nid = ''Queen-We Will Rock You-1977'', label = ''1977'', children = [8], ntype = year, parent = Some 8\<rparr>,
      \<lparr>nid = ''Queen-We Will Rock You-Rock'', label = ''Rock'', children = [8], ntype = genre, parent = Some 8\<rparr>,
      \<lparr>nid = ''Queen-We Will Rock You-Funk'', label = ''Funk'', children = [8], ntype = genre, parent = Some 8\<rparr>]"

section \<open>Proofs\<close>

subsection \<open>Closed forms of the allocations\<close>

text \<open>
  \<open>allocs\<close> appends its nodes at consecutive addresses, and \<open>attachTrack\<close> changes the
  children of the artist node and appends the new nodes of the record.
\<close>

lemma allocs_eq: "allocs ns h = (map (\<lambda>i. length h + i) [0..<length ns], h @ ns)"
proof (induction ns arbitrary: h)
  case Nil
  show ?case by simp
next
  case (Cons n ns)
  show ?case by (simp add: Cons.IH alloc_def map_upt_Suc del: upt_Suc)
qed

lemma attachTrack_eq:
  assumes "a < length h"
  shows "attachTrack tr a h =
           h[a := (h ! a)\<lparr>children := children (h ! a) @ [length h]\<rparr>] @ newNodes tr a (length h)"
  using assms
  by (simp add: attachTrack_def alloc_def push_def allocs_eq newNodes_def trackNodeOf_def
      yearNodeOf_def genreNodeOf_def nth_append list_update_append)

subsection \<open>Nodes that a later heap leaves alone\<close>

text \<open>
  Year, genre and track nodes are never written to after the iteration that made them,
  so what holds of them, and the subtree read off a track node, carries over to a later
  heap.
\<close>

lemma ext_leaf: "ext h h' \<Longrightarrow> leaf_ok h p c \<Longrightarrow> leaf_ok h' p c \<and> leafTree h' c = leafTree h c"
  by (auto simp: ext_def leaf_ok_def leafTree_def)

lemma ext_track:
  assumes "ext h h'" "track_ok h a p"
  shows "track_ok h' a p \<and> trackTree h' p = trackTree h p"
proof -
  have p: "p < length h" "ntype (h ! p) = track" using assms(2) by (auto simp: track_ok_def)
  then have eq: "h' ! p = h ! p" using assms(1) by (simp add: ext_def)
  have leaves: "\<forall>c \<in> set (children (h ! p)). leaf_ok h' p c \<and> leafTree h' c = leafTree h c"
    using assms ext_leaf by (auto simp: track_ok_def)
  have "p < length h'" using p assms(1) by (simp add: ext_def)
  then show ?thesis using assms(2) eq leaves by (simp add: track_ok_def trackTree_def)
qed

lemma ext_artist:
  assumes "ext h h'" "artist_ok r h a" "h' ! a = h ! a"
  shows "artist_ok r h' a \<and>
         map (trackTree h') (children (h' ! a)) = map (trackTree h) (children (h ! a))"
proof -
  have tracks: "\<forall>p \<in> set (children (h ! a)). track_ok h' a p \<and> trackTree h' p = trackTree h p"
    using assms ext_track by (auto simp: artist_ok_def)
  have "a < length h'" using assms(1,2) by (simp add: ext_def artist_ok_def)
  then show ?thesis using assms(2,3) tracks by (simp add: artist_ok_def)
qed

subsection \<open>The nodes of one record\<close>

text \<open>
  The heap after \<open>attachTrack\<close>, address by address, and the subtree of the new track
  node.
\<close>

lemma attachTrack_length:
  "a < length h \<Longrightarrow> length (attachTrack tr a h) = length h + 2 + length (split CHR '';'' (Genre tr))"
  by (simp add: attachTrack_eq newNodes_def)

lemma attachTrack_old:
  "a < length h \<Longrightarrow> x < length h \<Longrightarrow> x \<noteq> a \<Longrightarrow> attachTrack tr a h ! x = h ! x"
  by (simp add: attachTrack_eq nth_append)

lemma attachTrack_artist:
  "a < length h \<Longrightarrow>
   attachTrack tr a h ! a = (h ! a)\<lparr>children := children (h ! a) @ [length h]\<rparr>"
  by (simp add: attachTrack_eq nth_append)

lemma attachTrack_track:
  "a < length h \<Longrightarrow> attachTrack tr a h ! length h = trackNodeOf tr a (length h)"
  by (simp add: attachTrack_eq nth_append newNodes_def)

lemma attachTrack_year:
  "a < length h \<Longrightarrow> attachTrack tr a h ! Suc (length h) = yearNodeOf tr (length h)"
  by (simp add: attachTrack_eq nth_append newNodes_def)

lemma attachTrack_genre:
  "a < length h \<Longrightarrow> i < length (split CHR '';'' (Genre tr)) \<Longrightarrow>
   attachTrack tr a h ! Suc (Suc (length h + i)) =
     genreNodeOf tr (length h) (split CHR '';'' (Genre tr) ! i)"
  by (simp add: attachTrack_eq nth_append newNodes_def)

lemma ext_attachTrack:
  assumes "a < length h" "ntype (h ! a) = artist"
  shows "ext h (attachTrack tr a h)"
proof -
  have "attachTrack tr a h ! x = h ! x" if "x < length h" "ntype (h ! x) \<noteq> artist" for x
  proof -
    have "x \<noteq> a" using that(2) assms(2) by auto
    then show ?thesis using assms(1) that(1) by (simp add: attachTrack_old)
  qed
  then show ?thesis using assms(1) by (simp add: ext_def attachTrack_length)
qed

lemma new_track_tree:
  assumes "a < length h"
  shows "trackTree (attachTrack tr a h) (length h) = specTrack tr"
proof -
  let ?h = "attachTrack tr a h" and ?p = "length h" and ?ts = "split CHR '';'' (Genre tr)"
  have "map (leafTree ?h) (map (\<lambda>i. Suc (Suc (?p + i))) [0..<length ?ts]) =
        map (\<lambda>g. Tree (Artist tr @ ''-'' @ TrackName tr @ ''-'' @ g) g genre []) ?ts"
    using assms
    by (intro nth_equalityI) (simp_all add: leafTree_def attachTrack_genre genreNodeOf_def)
  then show ?thesis
    using assms
    by (simp add: trackTree_def specTrack_def attachTrack_track trackNodeOf_def leafTree_def
        attachTrack_year yearNodeOf_def)
qed

lemma new_track_ok:
  assumes "a < length h"
  shows "track_ok (attachTrack tr a h) a (length h)"
proof -
  let ?h = "attachTrack tr a h" and ?p = "length h" and ?ts = "split CHR '';'' (Genre tr)"
  have year: "leaf_ok ?h ?p (Suc ?p)"
    using assms by (simp add: leaf_ok_def attachTrack_length attachTrack_year yearNodeOf_def)
  have genres: "leaf_ok ?h ?p (Suc (Suc (?p + i)))" if "i < length ?ts" for i
    using assms that attachTrack_genre[OF assms that]
    by (simp add: leaf_ok_def attachTrack_length genreNodeOf_def)
  have dist: "distinct (map (\<lambda>i. Suc (Suc (?p + i))) [0..<length ?ts])"
    by (simp add: distinct_map inj_on_def)
  show ?thesis
    using assms year genres dist
    by (auto simp: track_ok_def attachTrack_length attachTrack_track trackNodeOf_def)
qed

subsection \<open>The invariant is kept by both halves of an iteration\<close>

lemma build_inv_lookup:
  assumes "build_inv r names ts h m" "m A = Some a"
  shows "a \<in> set (children (h ! r)) \<and> label (h ! a) = A"
proof -
  have "A \<in> set names" using assms by (auto simp: build_inv_def)
  then have "A \<in> set (map (\<lambda>a. label (h ! a)) (children (h ! r)))"
    using assms(1) by (simp add: build_inv_def)
  then obtain b where b: "b \<in> set (children (h ! r))" "label (h ! b) = A" by auto
  then have "m A = Some b" using assms(1) by (auto simp: build_inv_def)
  then show ?thesis using b assms(2) by simp
qed

lemma build_inv_init: "build_inv (length h0) [] [] (h0 @ [rootNode]) Map.empty"
  by (simp add: build_inv_def rootNode_def)

lemma build_inv_new_artist:
  assumes inv: "build_inv r names ts h m" and new: "A \<notin> set names"
  defines "N \<equiv> \<lparr>nid = A, label = A, children = [], ntype = artist, parent = Some r\<rparr>"
  defines "h' \<equiv> push r [length h] (h @ [N])"
  shows "build_inv r (names @ [A]) ts h' (m(A \<mapsto> length h))"
proof -
  let ?as = "children (h ! r)"
  have r: "r < length h" using inv by (simp add: build_inv_def)
  have len: "length h' = Suc (length h)" by (simp add: h'_def push_def)
  have root: "h' ! r = (h ! r)\<lparr>children := ?as @ [length h]\<rparr>"
    using r by (simp add: h'_def push_def nth_append)
  have old: "h' ! x = h ! x" if "x < length h" "x \<noteq> r" for x
    using that by (simp add: h'_def push_def nth_append)
  have newn: "h' ! length h = N"
    using r by (simp add: h'_def push_def nth_append)
  have e: "ext h h'"
  proof -
    have "h' ! x = h ! x" if "x < length h" "ntype (h ! x) \<noteq> artist" for x
    proof -
      have "x \<noteq> r" using that(2) inv by (auto simp: build_inv_def)
      then show ?thesis using that(1) old by simp
    qed
    then show ?thesis by (simp add: ext_def len)
  qed
  have olda: "artist_ok r h' a \<and> h' ! a = h ! a \<and> m (label (h ! a)) = Some a \<and> label (h ! a) \<noteq> A \<and>
              map (trackTree h') (children (h ! a)) =
                map specTrack (filter (\<lambda>t. Artist t = label (h ! a)) ts)"
    if "a \<in> set ?as" for a
  proof -
    have ok: "artist_ok r h a" "m (label (h ! a)) = Some a"
      "map (trackTree h) (children (h ! a)) = map specTrack (filter (\<lambda>t. Artist t = label (h ! a)) ts)"
      using inv that by (auto simp: build_inv_def)
    then have eq: "h' ! a = h ! a" using old by (simp add: artist_ok_def)
    have "label (h ! a) \<in> set names" using inv that by (auto simp: build_inv_def)
    then have "label (h ! a) \<noteq> A" using new by auto
    then show ?thesis using ext_artist[OF e ok(1) eq] ok eq by simp
  qed
  have newa: "artist_ok r h' (length h)"
    using r by (simp add: artist_ok_def len newn N_def)
  have nofilter: "filter (\<lambda>t. Artist t = A) ts = []"
    using inv new by (auto simp: build_inv_def filter_empty_conv)
  have labels: "map (\<lambda>a. label (h' ! a)) ?as = names"
  proof -
    have "map (\<lambda>a. label (h' ! a)) ?as = map (\<lambda>a. label (h ! a)) ?as"
      using olda by (intro map_cong refl) simp
    moreover have "map (\<lambda>a. label (h ! a)) ?as = names"
      using inv by (simp add: build_inv_def)
    ultimately show ?thesis by simp
  qed
  have "\<forall>a \<in> set (children (h' ! r)).
          artist_ok r h' a \<and> (m(A \<mapsto> length h)) (label (h' ! a)) = Some a \<and>
          map (trackTree h') (children (h' ! a)) =
            map specTrack (filter (\<lambda>t. Artist t = label (h' ! a)) ts)"
    using olda newa nofilter by (auto simp: root newn N_def)
  moreover have "map (\<lambda>a. label (h' ! a)) (children (h' ! r)) = names @ [A]"
    using labels by (simp add: root newn N_def)
  moreover have "dom (m(A \<mapsto> length h)) = set (names @ [A])"
    using inv by (simp add: build_inv_def)
  moreover have "Artist ` set ts \<subseteq> set (names @ [A])"
    using inv by (auto simp: build_inv_def)
  moreover have "distinct (names @ [A])"
    using inv new by (simp add: build_inv_def)
  moreover have "r < length h' \<and> nid (h' ! r) = ''root'' \<and> label (h' ! r) = ''Music Library'' \<and>
     ntype (h' ! r) = artist \<and> parent (h' ! r) = None"
    using inv r by (simp add: build_inv_def root len)
  ultimately show ?thesis
    unfolding build_inv_def by blast
qed

lemma build_inv_attach:
  assumes inv: "build_inv r names ts h m" and look: "m (Artist tr) = Some a"
  defines "h' \<equiv> attachTrack tr a h"
  shows "build_inv r names (ts @ [tr]) h' m"
proof -
  let ?as = "children (h ! r)"
  have a: "a \<in> set ?as" "label (h ! a) = Artist tr"
    using build_inv_lookup[OF inv look] by simp_all
  have aok: "artist_ok r h a" using inv a(1) by (simp add: build_inv_def)
  then have al: "a < length h" "r < a" "ntype (h ! a) = artist" by (simp_all add: artist_ok_def)
  have r: "r < length h" using inv by (simp add: build_inv_def)
  have e: "ext h h'" unfolding h'_def using al by (intro ext_attachTrack)
  have len: "length h \<le> length h'" using e by (simp add: ext_def)
  have root: "h' ! r = h ! r"
    unfolding h'_def using al r by (simp add: attachTrack_old)
  have inj: "b = a" if "b \<in> set ?as" "label (h ! b) = Artist tr" for b
  proof -
    have "m (label (h ! b)) = Some b" using inv that(1) by (simp add: build_inv_def)
    then show ?thesis using that(2) look by simp
  qed
  have other: "artist_ok r h' b \<and> h' ! b = h ! b \<and>
               map (trackTree h') (children (h ! b)) =
                 map specTrack (filter (\<lambda>t. Artist t = label (h ! b)) (ts @ [tr]))"
    if "b \<in> set ?as" "b \<noteq> a" for b
  proof -
    have ok: "artist_ok r h b"
      "map (trackTree h) (children (h ! b)) = map specTrack (filter (\<lambda>t. Artist t = label (h ! b)) ts)"
      using inv that(1) by (auto simp: build_inv_def)
    then have eq: "h' ! b = h ! b"
      unfolding h'_def using al that(2) by (simp add: attachTrack_old artist_ok_def)
    have "label (h ! b) \<noteq> Artist tr" using inj that by auto
    then show ?thesis using ext_artist[OF e ok(1) eq] ok eq by auto
  qed
  have anode: "h' ! a = (h ! a)\<lparr>children := children (h ! a) @ [length h]\<rparr>"
    unfolding h'_def using al by (simp add: attachTrack_artist)
  have oldtracks: "\<forall>p \<in> set (children (h ! a)). track_ok h' a p \<and> trackTree h' p = trackTree h p \<and> p < length h"
    using aok ext_track[OF e] by (auto simp: artist_ok_def track_ok_def)
  have newtrack: "track_ok h' a (length h)" "trackTree h' (length h) = specTrack tr"
    unfolding h'_def using al by (simp_all add: new_track_ok new_track_tree)
  have atree: "map (trackTree h) (children (h ! a)) = map specTrack (filter (\<lambda>t. Artist t = Artist tr) ts)"
    using inv a by (auto simp: build_inv_def)
  have this_ok: "artist_ok r h' a"
    using aok oldtracks newtrack len by (auto simp: artist_ok_def anode)
  have this_tree: "map (trackTree h') (children (h' ! a)) =
                 map specTrack (filter (\<lambda>t. Artist t = label (h' ! a)) (ts @ [tr]))"
  proof -
    have "map (trackTree h') (children (h ! a)) = map (trackTree h) (children (h ! a))"
      using oldtracks by (intro map_cong refl) simp
    then show ?thesis using atree newtrack(2) a(2) by (simp add: anode)
  qed
  have all: "\<forall>b \<in> set (children (h' ! r)).
          artist_ok r h' b \<and> m (label (h' ! b)) = Some b \<and>
          map (trackTree h') (children (h' ! b)) =
            map specTrack (filter (\<lambda>t. Artist t = label (h' ! b)) (ts @ [tr]))"
  proof
    fix b assume "b \<in> set (children (h' ! r))"
    then have b: "b \<in> set ?as" by (simp add: root)
    have mb: "m (label (h ! b)) = Some b" using inv b by (simp add: build_inv_def)
    show "artist_ok r h' b \<and> m (label (h' ! b)) = Some b \<and>
          map (trackTree h') (children (h' ! b)) =
            map specTrack (filter (\<lambda>t. Artist t = label (h' ! b)) (ts @ [tr]))"
    proof (cases "b = a")
      case True
      then show ?thesis using this_ok this_tree mb by (simp add: anode)
    next
      case False
      then show ?thesis using other[OF b False] mb by simp
    qed
  qed
  have labels: "map (\<lambda>a. label (h' ! a)) (children (h' ! r)) = names"
  proof -
    have "label (h' ! b) = label (h ! b)" if "b \<in> set ?as" for b
      using other[OF that] by (cases "b = a") (simp_all add: anode)
    then have "map (\<lambda>a. label (h' ! a)) ?as = map (\<lambda>a. label (h ! a)) ?as"
      by (intro map_cong refl) simp
    moreover have "map (\<lambda>a. label (h ! a)) ?as = names"
      using inv by (simp add: build_inv_def)
    ultimately show ?thesis by (simp add: root)
  qed
  have "Artist tr \<in> set names" using inv look by (auto simp: build_inv_def)
  then have "Artist ` set (ts @ [tr]) \<subseteq> set names"
    using inv by (auto simp: build_inv_def)
  moreover have "distinct names \<and> dom m = set names"
    using inv by (simp add: build_inv_def)
  moreover have "r < length h' \<and> nid (h' ! r) = ''root'' \<and> label (h' ! r) = ''Music Library'' \<and>
     ntype (h' ! r) = artist \<and> parent (h' ! r) = None"
    using inv r len by (simp add: build_inv_def root)
  ultimately show ?thesis
    unfolding build_inv_def using all labels by blast
qed

subsection \<open>The loop\<close>

text \<open>
  The order of first appearance grows at the end, as the root's children do; the
  invariant therefore holds after every iteration and at the return.
\<close>

lemma set_first_appearance [simp]: "set (first_appearance xs) = set xs"
  by (induction xs) auto

lemma distinct_first_appearance [simp]: "distinct (first_appearance xs)"
  by (induction xs) auto

lemma first_appearance_snoc:
  "first_appearance (xs @ [x]) = (if x \<in> set xs then first_appearance xs else first_appearance xs @ [x])"
  by (induction xs) auto

lemma build_inv_names: "build_inv r (first_appearance (map Artist ts)) ts h m \<Longrightarrow> dom m = Artist ` set ts"
  by (simp add: build_inv_def)

lemma addTrack_inv:
  assumes run: "addTrack r tr s = Inr s'"
    and inv: "build_inv r (first_appearance (map Artist ts)) ts (heap s) (artistMap s)"
  shows "input s' = input s \<and>
         build_inv r (first_appearance (map Artist (ts @ [tr]))) (ts @ [tr]) (heap s') (artistMap s')"
proof (cases "artistMap s (Artist tr)")
  case None
  let ?h = "heap s" and ?A = "Artist tr"
  let ?N = "\<lparr>nid = ?A, label = ?A, children = [], ntype = artist, parent = Some r\<rparr>"
  let ?h2 = "push r [length ?h] (?h @ [?N])"
  let ?m = "(artistMap s)(?A \<mapsto> length ?h)"
  from None have notin: "?A \<notin> Artist ` set ts"
    using build_inv_names[OF inv] by (auto simp: domIff)
  from run None have s': "s' = s\<lparr>heap := attachTrack tr (length ?h) ?h2, artistMap := ?m\<rparr>"
    by (auto simp: addTrack_def getProp_def alloc_def split: if_splits)
  have "build_inv r (first_appearance (map Artist ts) @ [?A]) ts ?h2 ?m"
    using notin by (intro build_inv_new_artist[OF inv]) simp
  then have "build_inv r (first_appearance (map Artist ts) @ [?A]) (ts @ [tr])
               (attachTrack tr (length ?h) ?h2) ?m"
    by (rule build_inv_attach) simp
  moreover have "first_appearance (map Artist (ts @ [tr])) = first_appearance (map Artist ts) @ [?A]"
    using notin by (simp add: first_appearance_snoc)
  ultimately show ?thesis by (simp add: s')
next
  case (Some a)
  from run Some have s': "s' = s\<lparr>heap := attachTrack tr a (heap s)\<rparr>"
    by (auto simp: addTrack_def getProp_def)
  have "Artist tr \<in> Artist ` set ts"
    using build_inv_names[OF inv] Some by (auto simp: domIff)
  then have "first_appearance (map Artist (ts @ [tr])) = first_appearance (map Artist ts)"
    by (simp add: first_appearance_snoc)
  then show ?thesis
    using build_inv_attach[OF inv Some] by (simp add: s')
qed

lemma forEach_inv:
  assumes "forEach (addTrack r) [i..<length tracks] s = Inr s'"
    and "input s = tracks" and "i \<le> length tracks"
    and "build_inv r (first_appearance (map Artist (take i tracks))) (take i tracks)
           (heap s) (artistMap s)"
  shows "input s' = tracks \<and>
         build_inv r (first_appearance (map Artist tracks)) tracks (heap s') (artistMap s')"
  using assms
proof (induction "length tracks - i" arbitrary: i s)
  case 0
  then show ?case by simp
next
  case (Suc k)
  then have i: "i < length tracks" by simp
  then have upt: "[i..<length tracks] = i # [Suc i..<length tracks]"
    by (simp add: upt_conv_Cons)
  from Suc.prems(1) obtain s1 where s1: "addTrack r (input s ! i) s = Inr s1"
    and rest: "forEach (addTrack r) [Suc i..<length tracks] s1 = Inr s'"
    unfolding upt by (auto split: sum.splits)
  have step: "input s1 = input s \<and>
     build_inv r (first_appearance (map Artist (take i tracks @ [tracks ! i])))
       (take i tracks @ [tracks ! i]) (heap s1) (artistMap s1)"
    using addTrack_inv[OF s1 Suc.prems(4)] Suc.prems(2) by simp
  have "k = length tracks - Suc i" using Suc.hyps(2) by simp
  then show ?case
    using Suc.hyps(1)[of "Suc i" s1] rest step Suc.prems(2) i
    by (simp add: take_Suc_conv_app_nth)
qed

lemma buildMindMap_inv:
  assumes "buildMindMap tracks h0 = Inr (r, h, inp)"
  shows "r = length h0 \<and> inp = tracks \<and>
         (\<exists>m. build_inv r (first_appearance (map Artist tracks)) tracks h m)"
proof -
  let ?s0 = "\<lparr>heap = h0 @ [rootNode], artistMap = Map.empty, input = tracks\<rparr>"
  from assms obtain s where s: "forEach (addTrack (length h0)) [0..<length tracks] ?s0 = Inr s"
    and res: "r = length h0" "h = heap s" "inp = input s"
    by (auto simp: buildMindMap_def alloc_def split: sum.splits)
  have "input s = tracks \<and>
        build_inv (length h0) (first_appearance (map Artist tracks)) tracks (heap s) (artistMap s)"
    using s by (rule forEach_inv) (simp_all add: build_inv_init)
  then show ?thesis using res by auto
qed

subsection \<open>What a returned root satisfies\<close>

lemma buildMindMap_root:
  assumes "buildMindMap tracks h0 = Inr (r, h, inp)"
  shows "nid (h ! r) = ''root'' \<and> label (h ! r) = ''Music Library'' \<and>
         ntype (h ! r) = artist \<and> parent (h ! r) = None \<and>
         map (\<lambda>a. label (h ! a)) (children (h ! r)) = first_appearance (map Artist tracks)"
  using buildMindMap_inv[OF assms] by (auto simp: build_inv_def)

lemma buildMindMap_artist:
  assumes "buildMindMap tracks h0 = Inr (r, h, inp)" "a \<in> set (children (h ! r))"
  shows "artist_ok r h a \<and>
         map (trackTree h) (children (h ! a)) =
           map specTrack (filter (\<lambda>t. Artist t = label (h ! a)) tracks)"
  using buildMindMap_inv[OF assms(1)] assms(2) by (auto simp: build_inv_def)

lemma map_proj:
  assumes "map f xs = map g ys"
  shows "map (\<lambda>x. p (f x)) xs = map (\<lambda>y. p (g y)) ys"
proof -
  have "map p (map f xs) = map p (map g ys)" using assms by simp
  then show ?thesis by (simp add: comp_def)
qed

lemma distinct_of_map: "distinct (map f xs) \<Longrightarrow> distinct xs"
  by (simp add: distinct_map)

subsection \<open>Counting the track nodes\<close>

lemma distinct_concat_map:
  assumes "distinct xs" "\<forall>x \<in> set xs. distinct (f x)"
    "\<forall>x \<in> set xs. \<forall>y \<in> set xs. x \<noteq> y \<longrightarrow> set (f x) \<inter> set (f y) = {}"
  shows "distinct (concat (map f xs))"
  using assms
proof (induction xs)
  case Nil
  show ?case by simp
next
  case (Cons x xs)
  have "set (f x) \<inter> set (f y) = {}" if "y \<in> set xs" for y
    using Cons.prems(1,3) that by auto
  then have "set (f x) \<inter> (\<Union>y \<in> set xs. set (f y)) = {}" by blast
  moreover have "distinct (concat (map f xs))" using Cons by simp
  ultimately show ?case using Cons.prems(2) by simp
qed



subsection \<open>When the call returns\<close>

lemma addTrack_input: "addTrack r tr s = Inr s' \<Longrightarrow> input s' = input s"
  by (auto simp: addTrack_def alloc_def split: jsval.splits)

lemma addTrack_returns:
  "Artist tr \<notin> set objectPrototypeKeys \<Longrightarrow> \<exists>s'. addTrack r tr s = Inr s'"
  by (auto simp: addTrack_def getProp_def alloc_def split: option.splits)

lemma forEach_returns:
  assumes "\<forall>i \<in> set is. Artist (tracks ! i) \<notin> set objectPrototypeKeys" "input s = tracks"
  shows "\<exists>s'. forEach (addTrack r) is s = Inr s'"
  using assms
proof (induction "is" arbitrary: s)
  case Nil
  show ?case by simp
next
  case (Cons i "is")
  then obtain s1 where s1: "addTrack r (input s ! i) s = Inr s1"
    using addTrack_returns[of "tracks ! i" r s] by auto
  then have "input s1 = tracks" using addTrack_input Cons.prems(2) by auto
  then show ?case using Cons.IH[of s1] Cons.prems(1) s1 by simp
qed

lemma buildMindMap_returns:
  assumes "\<forall>t \<in> set tracks. Artist t \<notin> set objectPrototypeKeys"
  shows "\<exists>r h. buildMindMap tracks h0 = Inr (r, h, tracks)"
proof -
  let ?s0 = "\<lparr>heap = h0 @ [rootNode], artistMap = Map.empty, input = tracks\<rparr>"
  have "\<exists>s'. forEach (addTrack (length h0)) [0..<length tracks] ?s0 = Inr s'"
    using assms by (intro forEach_returns[where tracks = tracks]) simp_all
  then obtain s' where s': "forEach (addTrack (length h0)) [0..<length tracks] ?s0 = Inr s'" ..
  then have run: "buildMindMap tracks h0 = Inr (length h0, heap s', input s')"
    by (simp add: buildMindMap_def alloc_def)
  then have "input s' = tracks" using buildMindMap_inv by blast
  then show ?thesis using run by auto
qed

lemma addTrack_throws:
  assumes "Artist tr \<in> set objectPrototypeKeys" "artistMap s (Artist tr) = None"
  shows "addTrack r tr s = Inl TypeError"
  using assms by (simp add: addTrack_def getProp_def)

lemma forEach_throws:
  assumes "input s = tracks" "i \<le> length tracks"
    and "build_inv r (first_appearance (map Artist (take i tracks))) (take i tracks)
           (heap s) (artistMap s)"
    and "\<forall>j < i. Artist (tracks ! j) \<notin> set objectPrototypeKeys"
    and "\<exists>j. i \<le> j \<and> j < length tracks \<and> Artist (tracks ! j) \<in> set objectPrototypeKeys"
  shows "forEach (addTrack r) [i..<length tracks] s = Inl TypeError"
  using assms
proof (induction "length tracks - i" arbitrary: i s)
  case 0
  then show ?case by auto
next
  case (Suc k)
  then have i: "i < length tracks" by simp
  then have upt: "[i..<length tracks] = i # [Suc i..<length tracks]"
    by (simp add: upt_conv_Cons)
  let ?tr = "tracks ! i"
  show ?case
  proof (cases "Artist ?tr \<in> set objectPrototypeKeys")
    case True
    have "Artist ?tr \<notin> Artist ` set (take i tracks)"
    proof
      assume "Artist ?tr \<in> Artist ` set (take i tracks)"
      then obtain t where t: "t \<in> set (take i tracks)" "Artist t = Artist ?tr" by auto
      then obtain j where "j < i" "t = tracks ! j"
        using i by (auto simp: in_set_conv_nth)
      then show False using Suc.prems(4) t(2) True by auto
    qed
    then have "artistMap s (Artist ?tr) = None"
      using build_inv_names[OF Suc.prems(3)] by (auto simp: domIff)
    then have "addTrack r ?tr s = Inl TypeError"
      using True by (rule addTrack_throws[rotated])
    then show ?thesis unfolding upt using Suc.prems(1) by simp
  next
    case False
    then obtain s1 where s1: "addTrack r (input s ! i) s = Inr s1"
      using addTrack_returns[of ?tr r s] Suc.prems(1) by auto
    have step: "input s1 = input s \<and>
      build_inv r (first_appearance (map Artist (take i tracks @ [tracks ! i])))
        (take i tracks @ [tracks ! i]) (heap s1) (artistMap s1)"
      using addTrack_inv[OF s1 Suc.prems(3)] Suc.prems(1) by simp
    have before: "\<forall>j < Suc i. Artist (tracks ! j) \<notin> set objectPrototypeKeys"
      using Suc.prems(4) False by (auto simp: less_Suc_eq)
    obtain j where j: "i \<le> j" "j < length tracks" "Artist (tracks ! j) \<in> set objectPrototypeKeys"
      using Suc.prems(5) by auto
    then have "j \<noteq> i" using False by auto
    then have after: "\<exists>j. Suc i \<le> j \<and> j < length tracks \<and> Artist (tracks ! j) \<in> set objectPrototypeKeys"
      using j by (intro exI[of _ j]) simp
    have "k = length tracks - Suc i" using Suc.hyps(2) by simp
    then have "forEach (addTrack r) [Suc i..<length tracks] s1 = Inl TypeError"
      using Suc.hyps(1)[of "Suc i" s1] step Suc.prems(1) i before after
      by (simp add: take_Suc_conv_app_nth)
    then show ?thesis unfolding upt using s1 by simp
  qed
qed

lemma buildMindMap_throws:
  assumes "\<exists>t \<in> set tracks. Artist t \<in> set objectPrototypeKeys"
  shows "buildMindMap tracks h0 = Inl TypeError"
proof -
  let ?s0 = "\<lparr>heap = h0 @ [rootNode], artistMap = Map.empty, input = tracks\<rparr>"
  obtain t where t: "t \<in> set tracks" "Artist t \<in> set objectPrototypeKeys"
    using assms by auto
  obtain j where "j < length tracks" "tracks ! j = t"
    using t(1) unfolding in_set_conv_nth[of t tracks] by auto
  then have "j < length tracks" "Artist (tracks ! j) \<in> set objectPrototypeKeys"
    using t(2) by simp_all
  then have "forEach (addTrack (length h0)) [0..<length tracks] ?s0 = Inl TypeError"
    by (intro forEach_throws[where tracks = tracks]) (auto simp: build_inv_init)
  then show ?thesis by (simp add: buildMindMap_def alloc_def)
qed

lemma buildMindMap_empty: "buildMindMap [] h0 = Inr (length h0, h0 @ [rootNode], [])"
  by (simp add: buildMindMap_def alloc_def)

subsection \<open>Nodes allocated before the call\<close>

text \<open>
  The call writes to its root and to the nodes it allocates only: the heap it was
  started in is a prefix of the heap it returns.
\<close>

lemma attachTrack_take:
  "n \<le> a \<Longrightarrow> a < length h \<Longrightarrow> take n (attachTrack tr a h) = take n h"
  by (simp add: attachTrack_eq)

lemma addTrack_take:
  assumes run: "addTrack r tr s = Inr s'"
    and inv: "build_inv r names ts (heap s) (artistMap s)"
  shows "take r (heap s') = take r (heap s)"
proof (cases "artistMap s (Artist tr)")
  case None
  have r: "r < length (heap s)" using inv by (simp add: build_inv_def)
  let ?N = "\<lparr>nid = Artist tr, label = Artist tr, children = [], ntype = artist, parent = Some r\<rparr>"
  let ?h2 = "push r [length (heap s)] (heap s @ [?N])"
  from run None have "heap s' = attachTrack tr (length (heap s)) ?h2"
    by (auto simp: addTrack_def getProp_def alloc_def split: if_splits)
  moreover have "take r (attachTrack tr (length (heap s)) ?h2) = take r ?h2"
    using r by (intro attachTrack_take) (simp_all add: push_def)
  moreover have "take r ?h2 = take r (heap s)"
    using r by (simp add: push_def)
  ultimately show ?thesis by simp
next
  case (Some a)
  have "a \<in> set (children (heap s ! r))" using build_inv_lookup[OF inv Some] by simp
  then have "artist_ok r (heap s) a" using inv by (simp add: build_inv_def)
  then have a: "r \<le> a" "a < length (heap s)" by (simp_all add: artist_ok_def)
  from run Some have "heap s' = attachTrack tr a (heap s)"
    by (auto simp: addTrack_def getProp_def)
  then show ?thesis using attachTrack_take[OF a] by simp
qed

lemma forEach_take:
  assumes "forEach (addTrack r) [i..<length tracks] s = Inr s'"
    and "input s = tracks" and "i \<le> length tracks"
    and "build_inv r (first_appearance (map Artist (take i tracks))) (take i tracks)
           (heap s) (artistMap s)"
  shows "take r (heap s') = take r (heap s)"
  using assms
proof (induction "length tracks - i" arbitrary: i s)
  case 0
  then show ?case by simp
next
  case (Suc k)
  then have i: "i < length tracks" by simp
  then have upt: "[i..<length tracks] = i # [Suc i..<length tracks]"
    by (simp add: upt_conv_Cons)
  from Suc.prems(1) obtain s1 where s1: "addTrack r (input s ! i) s = Inr s1"
    and rest: "forEach (addTrack r) [Suc i..<length tracks] s1 = Inr s'"
    unfolding upt by (auto split: sum.splits)
  have step: "input s1 = input s \<and>
     build_inv r (first_appearance (map Artist (take i tracks @ [tracks ! i])))
       (take i tracks @ [tracks ! i]) (heap s1) (artistMap s1)"
    using addTrack_inv[OF s1 Suc.prems(4)] Suc.prems(2) by simp
  have "k = length tracks - Suc i" using Suc.hyps(2) by simp
  then have "take r (heap s') = take r (heap s1)"
    using Suc.hyps(1)[of "Suc i" s1] rest step Suc.prems(2) i
    by (simp add: take_Suc_conv_app_nth)
  then show ?case using addTrack_take[OF s1 Suc.prems(4)] by simp
qed

lemma buildMindMap_frame:
  assumes "buildMindMap tracks h0 = Inr (r, h, inp)"
  shows "take (length h0) h = h0"
proof -
  let ?s0 = "\<lparr>heap = h0 @ [rootNode], artistMap = Map.empty, input = tracks\<rparr>"
  from assms obtain s where s: "forEach (addTrack (length h0)) [0..<length tracks] ?s0 = Inr s"
    and res: "h = heap s"
    by (auto simp: buildMindMap_def alloc_def split: sum.splits)
  have "take (length h0) (heap s) = take (length h0) (heap ?s0)"
    using s by (rule forEach_take) (simp_all add: build_inv_init)
  then show ?thesis using res by simp
qed

subsection \<open>The tree is a function of the input\<close>

lemma buildMindMap_tree:
  assumes "buildMindMap tracks h0 = Inr (r, h, inp)"
  shows "rootTree h r = specRoot tracks"
proof -
  let ?as = "children (h ! r)"
  have "artistTree h a = specArtist tracks (label (h ! a))" if "a \<in> set ?as" for a
    using buildMindMap_artist[OF assms that] by (simp add: artistTree_def specArtist_def artist_ok_def)
  then have "map (artistTree h) ?as = map (\<lambda>a. specArtist tracks (label (h ! a))) ?as"
    by (intro map_cong refl) simp
  also have "\<dots> = map (specArtist tracks) (map (\<lambda>a. label (h ! a)) ?as)"
    by (simp add: comp_def)
  also have "\<dots> = map (specArtist tracks) (first_appearance (map Artist tracks))"
    using buildMindMap_root[OF assms] by simp
  finally show ?thesis
    using buildMindMap_root[OF assms] by (simp add: rootTree_def specRoot_def)
qed

subsection \<open>Identity strings that cannot collide\<close>

lemma key1_plain: "CHR ''-'' \<notin> set a \<Longrightarrow> key1 a = a"
  by (auto simp: key1_def)

lemma key1_dash: "CHR ''-'' \<notin> set a \<Longrightarrow> key1 (a @ CHR ''-'' # x) = a"
  by (induction a) (auto simp: key1_def)

lemma rest1_dash: "CHR ''-'' \<notin> set a \<Longrightarrow> rest1 (a @ CHR ''-'' # x) = x"
  by (induction a) (auto simp: rest1_def)

lemma distinct_concat_keyed:
  assumes "distinct (map g xs)" "\<forall>x \<in> set xs. distinct (f x)"
    "\<forall>x \<in> set xs. \<forall>s \<in> set (f x). key s = g x"
  shows "distinct (concat (map f xs))"
proof (rule distinct_concat_map)
  show "distinct xs" using assms(1) by (rule distinct_of_map)
  show "\<forall>x \<in> set xs. distinct (f x)" by (rule assms(2))
  show "\<forall>x \<in> set xs. \<forall>y \<in> set xs. x \<noteq> y \<longrightarrow> set (f x) \<inter> set (f y) = {}"
  proof (intro ballI impI)
    fix x y assume xy: "x \<in> set xs" "y \<in> set xs" "x \<noteq> y"
    have "inj_on g (set xs)" using assms(1) by (simp add: distinct_map)
    then have "g x \<noteq> g y" using xy by (auto dest: inj_onD)
    then have ne: "g x \<noteq> g y" .
    show "set (f x) \<inter> set (f y) = {}"
    proof (rule ccontr)
      assume "set (f x) \<inter> set (f y) \<noteq> {}"
      then obtain s where s: "s \<in> set (f x)" "s \<in> set (f y)" by auto
      have "key s = g x" using assms(3) xy(1) s(1) by blast
      moreover have "key s = g y" using assms(3) xy(2) s(2) by blast
      ultimately show False using ne by simp
    qed
  qed
qed

lemma distinct_track_names:
  assumes "distinct (map (\<lambda>t. (Artist t, TrackName t)) ts)"
  shows "distinct (map TrackName (filter (\<lambda>t. Artist t = A) ts))"
  using assms by (induction ts) (auto simp: image_iff)

lemma treeIds_specTrack:
  "treeIds (specTrack t) =
     (Artist t @ ''-'' @ TrackName t) #
     map (\<lambda>x. Artist t @ ''-'' @ TrackName t @ ''-'' @ x) (Year t # split CHR '';'' (Genre t))"
  by (simp add: specTrack_def comp_def)

lemma distinct_ids_track:
  assumes "distinct (Year t # split CHR '';'' (Genre t))"
  shows "distinct (treeIds (specTrack t))"
proof -
  let ?f = "\<lambda>x. Artist t @ ''-'' @ TrackName t @ ''-'' @ x"
  have "inj ?f" by (simp add: inj_on_def)
  then have "distinct (map ?f (Year t # split CHR '';'' (Genre t)))"
    using assms by (simp only: distinct_map) (auto intro: inj_on_subset)
  moreover have "Artist t @ ''-'' @ TrackName t \<notin> set (map ?f (Year t # split CHR '';'' (Genre t)))"
    by auto
  ultimately show ?thesis unfolding treeIds_specTrack by simp
qed

lemma ids_track_keys:
  assumes "CHR ''-'' \<notin> set (Artist t)" "CHR ''-'' \<notin> set (TrackName t)" "s \<in> set (treeIds (specTrack t))"
  shows "key1 s = Artist t \<and> key1 (rest1 s) = TrackName t"
proof -
  from assms(3) consider "s = Artist t @ ''-'' @ TrackName t"
    | x where "s = Artist t @ ''-'' @ (TrackName t @ ''-'' @ x)"
    unfolding treeIds_specTrack by auto
  then show ?thesis
  proof cases
    case 1
    then show ?thesis using assms(1,2) by (simp add: key1_dash rest1_dash key1_plain)
  next
    case 2
    then show ?thesis using assms(1,2) by (simp add: key1_dash rest1_dash)
  qed
qed

lemma treeIds_specArtist:
  "treeIds (specArtist ts A) =
     A # concat (map (\<lambda>t. treeIds (specTrack t)) (filter (\<lambda>t. Artist t = A) ts))"
  by (simp add: specArtist_def comp_def)

lemma ids_artist_keys:
  assumes "\<forall>t \<in> set ts. CHR ''-'' \<notin> set (Artist t) \<and> CHR ''-'' \<notin> set (TrackName t)"
    and "A \<in> Artist ` set ts" and "s \<in> set (treeIds (specArtist ts A))"
  shows "key1 s = A"
proof -
  have A: "CHR ''-'' \<notin> set A" using assms(1,2) by auto
  from assms(3) consider "s = A"
    | t where "t \<in> set ts" "Artist t = A" "s \<in> set (treeIds (specTrack t))"
    unfolding treeIds_specArtist by auto
  then show ?thesis
  proof cases
    case 1
    then show ?thesis using A by (simp add: key1_plain)
  next
    case 2
    then show ?thesis using ids_track_keys[of t s] assms(1) by auto
  qed
qed

lemma distinct_ids_artist:
  assumes "\<forall>t \<in> set ts. CHR ''-'' \<notin> set (Artist t) \<and> CHR ''-'' \<notin> set (TrackName t) \<and>
             distinct (Year t # split CHR '';'' (Genre t))"
    and "distinct (map (\<lambda>t. (Artist t, TrackName t)) ts)"
    and "A \<in> Artist ` set ts"
  shows "distinct (treeIds (specArtist ts A))"
proof -
  let ?rs = "filter (\<lambda>t. Artist t = A) ts"
  have A: "CHR ''-'' \<notin> set A" using assms(1,3) by auto
  have "distinct (concat (map (\<lambda>t. treeIds (specTrack t)) ?rs))"
  proof (rule distinct_concat_keyed[where g = TrackName and key = "\<lambda>s. key1 (rest1 s)"])
    show "distinct (map TrackName ?rs)" using assms(2) by (rule distinct_track_names)
    show "\<forall>t \<in> set ?rs. distinct (treeIds (specTrack t))"
      using assms(1) distinct_ids_track by auto
    show "\<forall>t \<in> set ?rs. \<forall>s \<in> set (treeIds (specTrack t)). key1 (rest1 s) = TrackName t"
      using assms(1) ids_track_keys by auto
  qed
  moreover have "A \<notin> set (concat (map (\<lambda>t. treeIds (specTrack t)) ?rs))"
  proof
    assume "A \<in> set (concat (map (\<lambda>t. treeIds (specTrack t)) ?rs))"
    then obtain t where "A \<in> set (treeIds (specTrack t))" by auto
    then have "CHR ''-'' \<in> set A" unfolding treeIds_specTrack by auto
    then show False using A by simp
  qed
  ultimately show ?thesis unfolding treeIds_specArtist by simp
qed

lemma distinct_ids_root:
  assumes "\<forall>t \<in> set ts. Artist t \<noteq> ''root'' \<and> CHR ''-'' \<notin> set (Artist t) \<and>
             CHR ''-'' \<notin> set (TrackName t) \<and> distinct (Year t # split CHR '';'' (Genre t))"
    and "distinct (map (\<lambda>t. (Artist t, TrackName t)) ts)"
  shows "distinct (treeIds (specRoot ts))"
proof -
  let ?names = "first_appearance (map Artist ts)"
  have dash: "\<forall>t \<in> set ts. CHR ''-'' \<notin> set (Artist t) \<and> CHR ''-'' \<notin> set (TrackName t)"
    using assms(1) by simp
  have keys: "key1 s = A" if "A \<in> set ?names" "s \<in> set (treeIds (specArtist ts A))" for A s
    using ids_artist_keys[OF dash _ that(2)] that(1) by simp
  have "distinct (concat (map (\<lambda>A. treeIds (specArtist ts A)) ?names))"
  proof (rule distinct_concat_keyed[where g = "\<lambda>A. A" and key = key1])
    show "distinct (map (\<lambda>A. A) ?names)" by simp
    show "\<forall>A \<in> set ?names. distinct (treeIds (specArtist ts A))"
      using assms distinct_ids_artist[of ts] by simp
    show "\<forall>A \<in> set ?names. \<forall>s \<in> set (treeIds (specArtist ts A)). key1 s = A"
      using keys by blast
  qed
  moreover have "''root'' \<notin> set (concat (map (\<lambda>A. treeIds (specArtist ts A)) ?names))"
  proof
    assume "''root'' \<in> set (concat (map (\<lambda>A. treeIds (specArtist ts A)) ?names))"
    then obtain A where A: "A \<in> set ?names" "''root'' \<in> set (treeIds (specArtist ts A))" by auto
    then have "key1 ''root'' = A" using keys by blast
    then have "A = ''root''" by (simp add: key1_def)
    then show False using A(1) assms(1) by auto
  qed
  ultimately show ?thesis by (simp add: specRoot_def comp_def)
qed

subsection \<open>Evaluating the example runs\<close>

lemmas run_simps = buildMindMap_def addTrack_def getProp_def objectPrototypeKeys_def
  attachTrack_def alloc_def push_def rootNode_def

lemma library_run: "buildMindMap library [] = Inr (0, libraryHeap, library)"
  by (simp add: library_def libraryHeap_def run_simps)

lemma rootNamed_run: "buildMindMap rootNamed [] = Inr (0, rootNamedHeap, rootNamed)"
  by (simp add: rootNamed_def rootNamedHeap_def run_simps)

lemma oneTrack_run: "buildMindMap oneTrack [] = Inr (0, oneTrackHeap, oneTrack)"
  by (simp add: oneTrack_def oneTrackHeap_def run_simps)

lemma repeated_run: "buildMindMap repeated [] = Inr (0, repeatedHeap, repeated)"
  by (simp add: repeated_def repeatedHeap_def run_simps)

lemma oneTrack_second_run: "buildMindMap oneTrack oneTrackHeap = Inr (6, oneTrackHeap2, oneTrack)"
  by (simp add: oneTrack_def oneTrackHeap_def oneTrackHeap2_def run_simps)

section \<open>The claims\<close>

text \<open>
  C1.  Whenever \<open>buildMindMap\<close> returns a root, the labels of the root's children are
  the artist names of the input in the order of their first appearance: each distinct
  artist name labels exactly one child, the children are distinct artist nodes whose
  parent is the root, and the track nodes under an artist node are, in input order,
  those of all the records with that artist name, so a record whose artist has been seen
  is attached under the existing node.
\<close>

theorem artists_grouped_by_name:
  assumes "buildMindMap tracks h0 = Inr (r, h, inp)"
  shows "map (\<lambda>a. label (h ! a)) (children (h ! r)) = first_appearance (map Artist tracks) \<and>
         distinct (map (\<lambda>a. label (h ! a)) (children (h ! r))) \<and>
         set (map (\<lambda>a. label (h ! a)) (children (h ! r))) = Artist ` set tracks \<and>
         distinct (children (h ! r)) \<and>
         (\<forall>a \<in> set (children (h ! r)).
            ntype (h ! a) = artist \<and> parent (h ! a) = Some r \<and>
            map (\<lambda>p. label (h ! p)) (children (h ! a)) =
              map TrackName (filter (\<lambda>t. Artist t = label (h ! a)) tracks))"
proof -
  let ?ls = "map (\<lambda>a. label (h ! a)) (children (h ! r))"
  have ls: "?ls = first_appearance (map Artist tracks)"
    using buildMindMap_root[OF assms] by simp
  then have d: "distinct ?ls" and s: "set ?ls = Artist ` set tracks"
    by (simp_all del: set_map add: set_map[of Artist tracks, symmetric])
  have da: "distinct (children (h ! r))" using d by (rule distinct_of_map)
  have "ntype (h ! a) = artist \<and> parent (h ! a) = Some r \<and>
        map (\<lambda>p. label (h ! p)) (children (h ! a)) =
          map TrackName (filter (\<lambda>t. Artist t = label (h ! a)) tracks)"
    if "a \<in> set (children (h ! r))" for a
  proof -
    note ok = buildMindMap_artist[OF assms that]
    have tree: "map (trackTree h) (children (h ! a)) =
          map specTrack (filter (\<lambda>t. Artist t = label (h ! a)) tracks)"
      using ok by simp
    have "map (\<lambda>p. tlabel (trackTree h p)) (children (h ! a)) =
          map (\<lambda>t. tlabel (specTrack t)) (filter (\<lambda>t. Artist t = label (h ! a)) tracks)"
      by (rule map_proj[OF tree])
    moreover have "ntype (h ! a) = artist \<and> parent (h ! a) = Some r"
      using ok by (simp add: artist_ok_def)
    ultimately show ?thesis by (simp add: trackTree_def specTrack_def)
  qed
  then show ?thesis using ls d s da by blast
qed

theorem artists_grouped_by_name_witness:
  "buildMindMap library [] = Inr (0, libraryHeap, library) \<and>
   map (\<lambda>a. label (libraryHeap ! a)) (children (libraryHeap ! 0)) = [''The Beatles'', ''Queen''] \<and>
   first_appearance (map Artist library) = [''The Beatles'', ''Queen''] \<and>
   map (\<lambda>p. label (libraryHeap ! p)) (children (libraryHeap ! 1)) = [''Hey Jude'', ''Let It Be'']"
  using artists_grouped_by_name[OF library_run] library_run
  by (simp add: library_def libraryHeap_def)





text \<open>
  C4.  Two calls of \<open>buildMindMap\<close> on the same input that return, in whatever heaps they
  run (the second one possibly in the heap the first one left), return roots of equal
  trees: the same shape, identity strings, labels, kinds and sibling order.
\<close>

theorem same_input_same_tree:
  assumes "buildMindMap tracks h0 = Inr (r1, h1, inp1)"
    and "buildMindMap tracks h0' = Inr (r2, h2, inp2)"
  shows "rootTree h1 r1 = rootTree h2 r2"
  using buildMindMap_tree[OF assms(1)] buildMindMap_tree[OF assms(2)] by simp

theorem same_input_same_tree_witness:
  "buildMindMap oneTrack [] = Inr (0, oneTrackHeap, oneTrack) \<and>
   buildMindMap oneTrack oneTrackHeap = Inr (6, oneTrackHeap2, oneTrack) \<and>
   rootTree oneTrackHeap 0 = rootTree oneTrackHeap2 6 \<and>
   rootTree oneTrackHeap2 6 =
     Tree ''root'' ''Music Library'' artist
       [Tree ''Queen'' ''Queen'' artist
         [Tree ''Queen-We Will Rock You'' ''We Will Rock You'' track
           [Tree ''Queen-We Will Rock You-1977'' ''1977'' year [],
            Tree ''Queen-We Will Rock You-Rock'' ''Rock'' genre [],
            Tree ''Queen-We Will Rock You-Funk'' ''Funk'' genre []]]]"
  using same_input_same_tree[OF oneTrack_run oneTrack_second_run] oneTrack_run oneTrack_second_run
  by (simp add: rootTree_def artistTree_def trackTree_def leafTree_def oneTrackHeap_def oneTrackHeap2_def)



text \<open>
  C6.  The claim is that no two nodes of the returned tree share an identity string.  It
  fails for the input that holds the same record twice: the two track nodes both get
  the identity string \<open>A-T\<close>, and so do their year nodes and their genre nodes.
\<close>

theorem repeated_track_repeats_ids:
  "buildMindMap repeated [] = Inr (0, repeatedHeap, repeated) \<and>
   \<not> distinct (treeIds (rootTree repeatedHeap 0))"
  using repeated_run
  by (simp add: rootTree_def artistTree_def trackTree_def leafTree_def repeatedHeap_def)

text \<open>
  C6, amended.  Whenever \<open>buildMindMap\<close> returns a root for an input in which no artist
  is named \<open>root\<close>, no artist name and no track name contains \<open>-\<close>, no two records have
  the same artist and track name, and in every record the year and the pieces of the
  genre field are pairwise different, no two nodes of the returned tree share an
  identity string.
\<close>

theorem ids_unique_for_separate_labels:
  assumes "buildMindMap tracks h0 = Inr (r, h, inp)"
    and "\<forall>t \<in> set tracks. Artist t \<noteq> ''root'' \<and> CHR ''-'' \<notin> set (Artist t) \<and>
           CHR ''-'' \<notin> set (TrackName t) \<and> distinct (Year t # split CHR '';'' (Genre t))"
    and "distinct (map (\<lambda>t. (Artist t, TrackName t)) tracks)"
  shows "distinct (treeIds (rootTree h r))"
  using distinct_ids_root[OF assms(2,3)] buildMindMap_tree[OF assms(1)] by simp

theorem ids_unique_for_separate_labels_witness:
  "buildMindMap library [] = Inr (0, libraryHeap, library) \<and>
   map Artist library = [''The Beatles'', ''The Beatles'', ''Queen''] \<and>
   map TrackName library = [''Hey Jude'', ''Let It Be'', ''Bohemian Rhapsody''] \<and>
   map (\<lambda>t. Year t # split CHR '';'' (Genre t)) library =
     [[''1968'', ''Rock'', ''Pop''], [''1970'', ''Rock'', ''Pop''], [''1975'', ''Rock'']] \<and>
   distinct (map (\<lambda>t. (Artist t, TrackName t)) library) \<and>
   distinct (treeIds (rootTree libraryHeap 0))"
proof -
  have a: "\<forall>t \<in> set library. Artist t \<noteq> ''root'' \<and> CHR ''-'' \<notin> set (Artist t) \<and>
      CHR ''-'' \<notin> set (TrackName t) \<and> distinct (Year t # split CHR '';'' (Genre t))"
    by (simp add: library_def)
  have b: "distinct (map (\<lambda>t. (Artist t, TrackName t)) library)"
    by (simp add: library_def)
  have c: "map Artist library = [''The Beatles'', ''The Beatles'', ''Queen''] \<and>
   map TrackName library = [''Hey Jude'', ''Let It Be'', ''Bohemian Rhapsody''] \<and>
   map (\<lambda>t. Year t # split CHR '';'' (Genre t)) library =
     [[''1968'', ''Rock'', ''Pop''], [''1970'', ''Rock'', ''Pop''], [''1975'', ''Rock'']]"
    by (simp add: library_def)
  show ?thesis
    using ids_unique_for_separate_labels[OF library_run a b] library_run b c by simp
qed

text \<open>
  C7.  The claim is that \<open>buildMindMap\<close> returns for every sequence of records.  For a
  record whose artist is named \<open>constructor\<close> it raises a \<open>TypeError\<close>: the read of
  \<open>artistMap[''constructor'']\<close> finds the function inherited from \<open>Object.prototype\<close>.
  (By \<open>buildMindMap_returns\<close> and \<open>buildMindMap_throws\<close> the call returns exactly when no
  artist name is a property name of \<open>Object.prototype\<close>; by \<open>buildMindMap_empty\<close> the
  empty input gives a root without children.)
\<close>

theorem constructor_artist_throws:
  "buildMindMap [\<lparr>Artist = ''constructor'', TrackName = ''Song'', Year = ''2000'', Genre = ''Rock''\<rparr>] []
     = Inl TypeError"
  by (simp add: run_simps)

text \<open>
  C8.  Whenever \<open>buildMindMap\<close> returns, the array it was called with holds the same
  records, with the same fields, as before the call.  (By \<open>buildMindMap_frame\<close> the
  nodes that were in the heap before the call are unchanged as well.)
\<close>

theorem input_not_mutated:
  assumes "buildMindMap tracks h0 = Inr (r, h, inp)"
  shows "inp = tracks"
  using buildMindMap_inv[OF assms] by simp

theorem input_not_mutated_witness:
  "buildMindMap library [] = Inr (0, libraryHeap, library) \<and>
   snd (snd (projr (buildMindMap library []))) = library"
  using input_not_mutated[OF library_run] library_run by simp

text \<open>
  C9.  Whenever \<open>buildMindMap\<close> returns a root, every record has its artist's node among
  the root's children, and the track nodes under an artist node correspond, in order, to
  that artist's records.  The children of the track node of a record are the year node
  made for the record, labelled with its year, followed by the genre nodes made for it,
  labelled with the pieces of its genre field; each of these nodes has a children list
  holding exactly one element, the reference to that track node, and has that track
  node as its parent.
\<close>

theorem leaves_link_back:
  assumes "buildMindMap tracks h0 = Inr (r, h, inp)"
  shows "(\<forall>t \<in> set tracks. \<exists>a \<in> set (children (h ! r)). label (h ! a) = Artist t) \<and>
         (\<forall>a \<in> set (children (h ! r)).
            map (\<lambda>p. map (\<lambda>c. (ntype (h ! c), label (h ! c),
                                  children (h ! c) = [p], parent (h ! c) = Some p))
                          (children (h ! p)))
                (children (h ! a)) =
            map (\<lambda>t. (year, Year t, True, True) #
                      map (\<lambda>g. (genre, g, True, True)) (split CHR '';'' (Genre t)))
                (filter (\<lambda>t. Artist t = label (h ! a)) tracks) \<and>
            (\<forall>p \<in> set (children (h ! a)).
               ntype (h ! p) = track \<and> parent (h ! p) = Some a \<and>
               (\<forall>c \<in> set (children (h ! p)).
                  (ntype (h ! c) = year \<or> ntype (h ! c) = genre) \<and>
                  children (h ! c) = [p] \<and> parent (h ! c) = Some p)))"
proof -
  let ?view = "\<lambda>x. map (\<lambda>l. (tkind l, tlabel l, True, True)) (kids x)"
  have artists: "\<exists>a \<in> set (children (h ! r)). label (h ! a) = Artist t" if "t \<in> set tracks" for t
  proof -
    have "Artist t \<in> set (first_appearance (map Artist tracks))" using that by simp
    then have "Artist t \<in> set (map (\<lambda>a. label (h ! a)) (children (h ! r)))"
      using buildMindMap_root[OF assms] by simp
    then show ?thesis by auto
  qed
  have leaves: "map (\<lambda>p. map (\<lambda>c. (ntype (h ! c), label (h ! c),
                                  children (h ! c) = [p], parent (h ! c) = Some p))
                          (children (h ! p)))
                (children (h ! a)) =
            map (\<lambda>t. (year, Year t, True, True) #
                      map (\<lambda>g. (genre, g, True, True)) (split CHR '';'' (Genre t)))
                (filter (\<lambda>t. Artist t = label (h ! a)) tracks) \<and>
            (\<forall>p \<in> set (children (h ! a)).
               ntype (h ! p) = track \<and> parent (h ! p) = Some a \<and>
               (\<forall>c \<in> set (children (h ! p)).
                  (ntype (h ! c) = year \<or> ntype (h ! c) = genre) \<and>
                  children (h ! c) = [p] \<and> parent (h ! c) = Some p))"
    if a: "a \<in> set (children (h ! r))" for a
  proof -
    have ok: "artist_ok r h a"
      and tree: "map (trackTree h) (children (h ! a)) =
                 map specTrack (filter (\<lambda>t. Artist t = label (h ! a)) tracks)"
      using buildMindMap_artist[OF assms a] by simp_all
    have tok: "track_ok h a p" if "p \<in> set (children (h ! a))" for p
      using ok that by (simp add: artist_ok_def)
    have leaf: "(ntype (h ! c) = year \<or> ntype (h ! c) = genre) \<and>
                children (h ! c) = [p] \<and> parent (h ! c) = Some p"
      if "p \<in> set (children (h ! a))" "c \<in> set (children (h ! p))" for p c
    proof -
      have "leaf_ok h p c" using tok[OF that(1)] that(2) by (simp add: track_ok_def)
      then show ?thesis by (simp add: leaf_ok_def)
    qed
    have links: "\<forall>p \<in> set (children (h ! a)).
               ntype (h ! p) = track \<and> parent (h ! p) = Some a \<and>
               (\<forall>c \<in> set (children (h ! p)).
                  (ntype (h ! c) = year \<or> ntype (h ! c) = genre) \<and>
                  children (h ! c) = [p] \<and> parent (h ! c) = Some p)"
    proof (rule ballI)
      fix p assume p: "p \<in> set (children (h ! a))"
      have "ntype (h ! p) = track \<and> parent (h ! p) = Some a"
        using tok[OF p] by (simp add: track_ok_def)
      moreover have "\<forall>c \<in> set (children (h ! p)).
                  (ntype (h ! c) = year \<or> ntype (h ! c) = genre) \<and>
                  children (h ! c) = [p] \<and> parent (h ! c) = Some p"
        using leaf[OF p] by (rule ballI)
      ultimately show "ntype (h ! p) = track \<and> parent (h ! p) = Some a \<and>
               (\<forall>c \<in> set (children (h ! p)).
                  (ntype (h ! c) = year \<or> ntype (h ! c) = genre) \<and>
                  children (h ! c) = [p] \<and> parent (h ! c) = Some p)"
        by (intro conjI) (rule conjunct1, assumption, rule conjunct2, assumption, assumption)
    qed
    have view: "map (\<lambda>c. (ntype (h ! c), label (h ! c),
                           children (h ! c) = [p], parent (h ! c) = Some p)) (children (h ! p)) =
                ?view (trackTree h p)"
      if "p \<in> set (children (h ! a))" for p
    proof -
      have "(ntype (h ! c), label (h ! c), children (h ! c) = [p], parent (h ! c) = Some p) =
            (ntype (h ! c), label (h ! c), True, True)"
        if "c \<in> set (children (h ! p))" for c
        using leaf[OF \<open>p \<in> set (children (h ! a))\<close> that] by simp
      then have "map (\<lambda>c. (ntype (h ! c), label (h ! c),
                       children (h ! c) = [p], parent (h ! c) = Some p)) (children (h ! p)) =
            map (\<lambda>c. (ntype (h ! c), label (h ! c), True, True)) (children (h ! p))"
        by (rule map_cong[OF refl])
      then show ?thesis by (simp add: trackTree_def leafTree_def comp_def)
    qed
    have "map (\<lambda>p. map (\<lambda>c. (ntype (h ! c), label (h ! c),
                                  children (h ! c) = [p], parent (h ! c) = Some p))
                          (children (h ! p)))
                (children (h ! a)) =
          map (\<lambda>p. ?view (trackTree h p)) (children (h ! a))"
      using view by (rule map_cong[OF refl])
    also have "\<dots> = map (\<lambda>t. ?view (specTrack t)) (filter (\<lambda>t. Artist t = label (h ! a)) tracks)"
      using map_proj[OF tree, of ?view] .
    also have "\<dots> = map (\<lambda>t. (year, Year t, True, True) #
                      map (\<lambda>g. (genre, g, True, True)) (split CHR '';'' (Genre t)))
                (filter (\<lambda>t. Artist t = label (h ! a)) tracks)"
      by (simp add: specTrack_def comp_def)
    finally have eq: "map (\<lambda>p. map (\<lambda>c. (ntype (h ! c), label (h ! c),
                                  children (h ! c) = [p], parent (h ! c) = Some p))
                          (children (h ! p)))
                (children (h ! a)) =
            map (\<lambda>t. (year, Year t, True, True) #
                      map (\<lambda>g. (genre, g, True, True)) (split CHR '';'' (Genre t)))
                (filter (\<lambda>t. Artist t = label (h ! a)) tracks)" .
    from eq links show ?thesis by (rule conjI)
  qed
  show ?thesis
  proof (rule conjI)
    show "\<forall>t \<in> set tracks. \<exists>a \<in> set (children (h ! r)). label (h ! a) = Artist t"
      using artists by (rule ballI)
  next
    show "\<forall>a \<in> set (children (h ! r)).
            map (\<lambda>p. map (\<lambda>c. (ntype (h ! c), label (h ! c),
                                  children (h ! c) = [p], parent (h ! c) = Some p))
                          (children (h ! p)))
                (children (h ! a)) =
            map (\<lambda>t. (year, Year t, True, True) #
                      map (\<lambda>g. (genre, g, True, True)) (split CHR '';'' (Genre t)))
                (filter (\<lambda>t. Artist t = label (h ! a)) tracks) \<and>
            (\<forall>p \<in> set (children (h ! a)).
               ntype (h ! p) = track \<and> parent (h ! p) = Some a \<and>
               (\<forall>c \<in> set (children (h ! p)).
                  (ntype (h ! c) = year \<or> ntype (h ! c) = genre) \<and>
                  children (h ! c) = [p] \<and> parent (h ! c) = Some p))"
      using leaves by (rule ballI)
  qed
qed

theorem leaves_link_back_witness:
  "buildMindMap library [] = Inr (0, libraryHeap, library) \<and>
   map Artist library = [''The Beatles'', ''The Beatles'', ''Queen''] \<and>
   children (libraryHeap ! 0) = [1, 10] \<and>
   children (libraryHeap ! 1) = [2, 6] \<and> children (libraryHeap ! 10) = [11] \<and>
   map (\<lambda>c. (ntype (libraryHeap ! c), label (libraryHeap ! c),
              children (libraryHeap ! c), parent (libraryHeap ! c))) (children (libraryHeap ! 2)) =
     [(year, ''1968'', [2], Some 2), (genre, ''Rock'', [2], Some 2), (genre, ''Pop'', [2], Some 2)] \<and>
   map (\<lambda>c. (ntype (libraryHeap ! c), label (libraryHeap ! c),
              children (libraryHeap ! c), parent (libraryHeap ! c))) (children (libraryHeap ! 6)) =
     [(year, ''1970'', [6], Some 6), (genre, ''Rock'', [6], Some 6), (genre, ''Pop'', [6], Some 6)] \<and>
   map (\<lambda>c. (ntype (libraryHeap ! c), label (libraryHeap ! c),
              children (libraryHeap ! c), parent (libraryHeap ! c))) (children (libraryHeap ! 11)) =
     [(year, ''1975'', [11], Some 11), (genre, ''Rock'', [11], Some 11)]"
  using leaves_link_back[OF library_run] library_run
  by (simp add: library_def libraryHeap_def)

text \<open>
  C10.  Whenever \<open>buildMindMap\<close> returns a root, the root has the identity string
  \<open>root\<close>, the label \<open>Music Library\<close>, the kind \<open>artist\<close> and no parent, whatever the
  input is, also when artists are named \<open>root\<close> or \<open>Music Library\<close>.
\<close>

theorem root_is_constant:
  assumes "buildMindMap tracks h0 = Inr (r, h, inp)"
  shows "nid (h ! r) = ''root'' \<and> label (h ! r) = ''Music Library'' \<and>
         ntype (h ! r) = artist \<and> parent (h ! r) = None"
  using buildMindMap_root[OF assms] by simp

theorem root_is_constant_witness:
  "buildMindMap rootNamed [] = Inr (0, rootNamedHeap, rootNamed) \<and>
   map Artist rootNamed = [''root'', ''Music Library''] \<and>
   nid (rootNamedHeap ! 0) = ''root'' \<and> label (rootNamedHeap ! 0) = ''Music Library'' \<and>
   ntype (rootNamedHeap ! 0) = artist \<and> parent (rootNamedHeap ! 0) = None"
  using root_is_constant[OF rootNamed_run] rootNamed_run
  by (simp add: rootNamed_def)

end
